theory Spec2Isabelle
  imports Complex_Main
begin

section \<open>Decoded JSON values and property reads\<close>

text \<open>
  The values that \<^verbatim>\<open>response.json()\<close> can produce, together with \<^verbatim>\<open>undefined\<close>, which
  a property read of a missing key yields. An object is the list of its own properties in
  insertion order (the first binding of a key is the one read). Strings are lists of code
  units below 256; numbers are the finite values that JSON text can denote.
\<close>

datatype json =
    JUndefined
  | JNull
  | JBool bool
  | JNum rat
  | JStr string
  | JArr "json list"
  | JObj "(string \<times> json) list"

datatype js_error = NetworkError | SyntaxError | TypeError

text \<open>
  \<^verbatim>\<open>v.k\<close> for the property names used by the program (none of them is defined on a
  prototype): a read on \<^verbatim>\<open>undefined\<close> or \<^verbatim>\<open>null\<close> throws a TypeError, a read of an
  own property gives its value, any other read gives \<^verbatim>\<open>undefined\<close>.
\<close>

fun read_prop :: "json \<Rightarrow> string \<Rightarrow> js_error + json" where
  "read_prop JUndefined k = Inl TypeError"
| "read_prop JNull k = Inl TypeError"
| "read_prop (JObj kvs) k = Inr (case map_of kvs k of None \<Rightarrow> JUndefined | Some v \<Rightarrow> v)"
| "read_prop v k = Inr JUndefined"

text \<open>
  Evaluation of a sequence of expressions that may throw, left to right, stopping at the
  first exception. It is both the evaluation of the fields of an object literal and
  \<^verbatim>\<open>Array.prototype.map\<close> with a callback that may throw.
\<close>

fun collect :: "('a \<Rightarrow> js_error + 'b) \<Rightarrow> 'a list \<Rightarrow> js_error + 'b list" where
  "collect f [] = Inr []"
| "collect f (x # xs) =
     (case f x of
        Inl e \<Rightarrow> Inl e
      | Inr y \<Rightarrow> (case collect f xs of Inl e \<Rightarrow> Inl e | Inr ys \<Rightarrow> Inr (y # ys)))"

section \<open>Data access layer (src/services/api.js)\<close>

text \<open>A cleaned product is the object built by the literal in \<^verbatim>\<open>cleanProductData\<close>.\<close>

type_synonym product = "(string \<times> json) list"

definition product_fields :: "string list" where
  "product_fields =
     [''id'', ''title'', ''description'', ''price'', ''discountPercentage'', ''rating'',
      ''stock'', ''brand'', ''category'', ''thumbnail'', ''images'']"

definition entry :: "json \<Rightarrow> string \<Rightarrow> js_error + string \<times> json" where
  "entry raw k = (case read_prop raw k of Inl e \<Rightarrow> Inl e | Inr v \<Rightarrow> Inr (k, v))"

definition cleanProductData :: "json \<Rightarrow> js_error + product" where
  "cleanProductData raw = collect (entry raw) product_fields"

text \<open>Reading a property of a cleaned product (an object, so the read never throws).\<close>

definition get :: "product \<Rightarrow> string \<Rightarrow> json" where
  "get p k = (case map_of p k of None \<Rightarrow> JUndefined | Some v \<Rightarrow> v)"

text \<open>
  The network. \<^verbatim>\<open>fetch\<close> rejects on a transport failure and otherwise resolves with a
  response whatever its status; \<^verbatim>\<open>response.json()\<close> rejects with a SyntaxError when the
  body is not JSON text (\<open>body = None\<close>). The remote service is a parameter: it maps the
  request that a call builds (endpoint and argument of the URL) to the outcome of
  \<^verbatim>\<open>fetch\<close>. Every call of \<^verbatim>\<open>fetch\<close> is appended to a log of the requests sent.
\<close>

record response =
  status :: nat
  body :: "json option"

datatype fetch_outcome = Rejected | Resolved response

datatype request =
    ProductsReq nat
  | ProductReq string
  | CategoriesReq
  | CategoryReq string
  | SearchReq string

type_synonym remote = "request \<Rightarrow> fetch_outcome"

definition fetch :: "remote \<Rightarrow> request \<Rightarrow> request list \<Rightarrow> fetch_outcome \<times> request list" where
  "fetch api req sent = (api req, sent @ [req])"

definition json_of :: "fetch_outcome \<Rightarrow> js_error + json" where
  "json_of out =
     (case out of
        Rejected \<Rightarrow> Inl NetworkError
      | Resolved r \<Rightarrow> (case body r of None \<Rightarrow> Inl SyntaxError | Some v \<Rightarrow> Inr v))"

text \<open>\<^verbatim>\<open>data.products.map(cleanProductData)\<close>: only an array has \<^verbatim>\<open>map\<close>.\<close>

definition clean_all :: "json \<Rightarrow> js_error + product list" where
  "clean_all data =
     (case read_prop data ''products'' of
        Inl e \<Rightarrow> Inl e
      | Inr (JArr xs) \<Rightarrow> collect cleanProductData xs
      | Inr _ \<Rightarrow> Inl TypeError)"

text \<open>The object returned by \<^verbatim>\<open>fetchProducts\<close> and \<^verbatim>\<open>searchProducts\<close>.\<close>

record page =
  page_products :: "product list"
  page_total :: json
  page_skip :: json
  page_limit :: json

definition page_of :: "json \<Rightarrow> js_error + page" where
  "page_of data =
     (case clean_all data of
        Inl e \<Rightarrow> Inl e
      | Inr ps \<Rightarrow>
          (case (read_prop data ''total'', read_prop data ''skip'', read_prop data ''limit'') of
             (Inr t, Inr s, Inr l) \<Rightarrow>
               Inr \<lparr>page_products = ps, page_total = t, page_skip = s, page_limit = l\<rparr>
           | _ \<Rightarrow> Inl TypeError))"

definition fetchProducts ::
  "remote \<Rightarrow> nat \<Rightarrow> request list \<Rightarrow> (js_error + page) \<times> request list" where
  "fetchProducts api limit sent =
     (let (out, sent') = fetch api (ProductsReq limit) sent
      in (case json_of out of Inl e \<Rightarrow> Inl e | Inr data \<Rightarrow> page_of data, sent'))"

definition fetchProductById ::
  "remote \<Rightarrow> string \<Rightarrow> request list \<Rightarrow> (js_error + product) \<times> request list" where
  "fetchProductById api ident sent =
     (let (out, sent') = fetch api (ProductReq ident) sent
      in (case json_of out of Inl e \<Rightarrow> Inl e | Inr raw \<Rightarrow> cleanProductData raw, sent'))"

definition fetchCategories ::
  "remote \<Rightarrow> request list \<Rightarrow> (js_error + json) \<times> request list" where
  "fetchCategories api sent =
     (let (out, sent') = fetch api CategoriesReq sent in (json_of out, sent'))"

definition fetchProductsByCategory ::
  "remote \<Rightarrow> string \<Rightarrow> request list \<Rightarrow> (js_error + product list) \<times> request list" where
  "fetchProductsByCategory api category sent =
     (let (out, sent') = fetch api (CategoryReq category) sent
      in (case json_of out of Inl e \<Rightarrow> Inl e | Inr data \<Rightarrow> clean_all data, sent'))"

definition searchProducts ::
  "remote \<Rightarrow> string \<Rightarrow> request list \<Rightarrow> (js_error + page) \<times> request list" where
  "searchProducts api query sent =
     (let (out, sent') = fetch api (SearchReq query) sent
      in (case json_of out of Inl e \<Rightarrow> Inl e | Inr data \<Rightarrow> page_of data, sent'))"

section \<open>Listing controller (pages/Products.jsx)\<close>

text \<open>The six state variables of the component, with their initial values.\<close>

record listing =
  products :: "product list"
  loading :: bool
  error :: "string option"
  inputValue :: string
  searchQuery :: string
  isSearching :: bool

definition listing_init :: listing where
  "listing_init =
     \<lparr>products = [], listing.loading = True, listing.error = None, inputValue = [],
      searchQuery = [], isSearching = False\<rparr>"

text \<open>
  \<^verbatim>\<open>String.prototype.trim\<close> on strings of code units below 256: the white space and line
  terminator code units in that range are 9 to 13, 32 and 160.
\<close>

definition is_ws :: "char \<Rightarrow> bool" where
  "is_ws c = ((of_char c :: nat) \<in> {9, 10, 11, 12, 13, 32, 160})"

definition trim :: "string \<Rightarrow> string" where
  "trim s = rev (dropWhile is_ws (rev (dropWhile is_ws s)))"

text \<open>
  An asynchronous function runs up to its \<^verbatim>\<open>await\<close> (the state then rendered is the
  pending state) and continues when the promise settles. For each one, the pending state
  and the continuation (\<^verbatim>\<open>try\<close> body or \<^verbatim>\<open>catch\<close>, then \<^verbatim>\<open>finally\<close>) are separate
  definitions; the complete action composes them around the call of the data access layer.
\<close>

definition loadProducts_pending :: "listing \<Rightarrow> listing" where
  "loadProducts_pending s = s\<lparr>listing.loading := True\<rparr>"

definition loadProducts_settle :: "js_error + page \<Rightarrow> listing \<Rightarrow> listing" where
  "loadProducts_settle r s =
     (case r of
        Inr data \<Rightarrow> s\<lparr>products := page_products data\<rparr>
      | Inl e \<Rightarrow> s\<lparr>listing.error := Some ''Failed to load products''\<rparr>)
     \<lparr>listing.loading := False\<rparr>"

definition performSearch_pending :: "listing \<Rightarrow> listing" where
  "performSearch_pending s = s\<lparr>listing.loading := True\<rparr>"

definition performSearch_settle :: "js_error + page \<Rightarrow> listing \<Rightarrow> listing" where
  "performSearch_settle r s =
     (case r of
        Inr data \<Rightarrow> s\<lparr>products := page_products data, isSearching := True\<rparr>
      | Inl e \<Rightarrow> s\<lparr>listing.error := Some ''Failed to search products''\<rparr>)
     \<lparr>listing.loading := False\<rparr>"

definition performSearch ::
  "remote \<Rightarrow> listing \<Rightarrow> request list \<Rightarrow> listing \<times> request list" where
  "performSearch api s sent =
     (if searchQuery s = [] then (s\<lparr>isSearching := False\<rparr>, sent)
      else
        (let p = performSearch_pending s;
             (r, sent') = searchProducts api (searchQuery s) sent
         in (performSearch_settle r p, sent')))"

text \<open>
  The effect with dependency \<^verbatim>\<open>[searchQuery]\<close>: after a render it runs \<^verbatim>\<open>performSearch\<close>
  if \<^verbatim>\<open>searchQuery\<close> differs from its value at the previous render.
\<close>

definition searchQuery_effect ::
  "remote \<Rightarrow> string \<Rightarrow> listing \<Rightarrow> request list \<Rightarrow> listing \<times> request list" where
  "searchQuery_effect api previous s sent =
     (if searchQuery s = previous then (s, sent) else performSearch api s sent)"

text \<open>
  Mounting: both effects run after the first render, \<^verbatim>\<open>loadProducts\<close> up to its
  \<^verbatim>\<open>await\<close> and then \<^verbatim>\<open>performSearch\<close>, which returns at once on the empty query.
\<close>

definition mount_pending :: "listing \<Rightarrow> listing" where
  "mount_pending s = (loadProducts_pending s)\<lparr>isSearching := False\<rparr>"

definition mount :: "remote \<Rightarrow> request list \<Rightarrow> listing \<times> request list" where
  "mount api sent =
     (let (r, sent') = fetchProducts api 30 sent
      in (loadProducts_settle r (mount_pending listing_init), sent'))"

definition handleSearch ::
  "remote \<Rightarrow> listing \<Rightarrow> request list \<Rightarrow> listing \<times> request list" where
  "handleSearch api s sent =
     searchQuery_effect api (searchQuery s) (s\<lparr>searchQuery := trim (inputValue s)\<rparr>) sent"

definition handleKeyDown ::
  "remote \<Rightarrow> string \<Rightarrow> listing \<Rightarrow> request list \<Rightarrow> listing \<times> request list" where
  "handleKeyDown api key s sent = (if key = ''Enter'' then handleSearch api s sent else (s, sent))"

text \<open>
  \<^verbatim>\<open>handleClear\<close> sets three state variables and sends its request before the render;
  the effect of the render then sees the emptied \<^verbatim>\<open>searchQuery\<close>, on which
  \<^verbatim>\<open>performSearch\<close> returns without a request.
\<close>

definition handleClear_pending :: "remote \<Rightarrow> listing \<Rightarrow> request list \<Rightarrow> listing \<times> request list" where
  "handleClear_pending api s sent =
     searchQuery_effect api (searchQuery s)
       (s\<lparr>inputValue := [], searchQuery := [], listing.loading := True\<rparr>) sent"

definition handleClear_settle :: "js_error + page \<Rightarrow> listing \<Rightarrow> listing" where
  "handleClear_settle r s =
     (case r of
        Inr data \<Rightarrow> s\<lparr>products := page_products data\<rparr>
      | Inl e \<Rightarrow> s\<lparr>listing.error := Some ''Failed to load products''\<rparr>)
     \<lparr>listing.loading := False\<rparr>"

definition handleClear ::
  "remote \<Rightarrow> listing \<Rightarrow> request list \<Rightarrow> listing \<times> request list" where
  "handleClear api s sent =
     (let (r, sent1) = fetchProducts api 30 sent;
          (p, sent2) = handleClear_pending api s sent1
      in (handleClear_settle r p, sent2))"

text \<open>
  The events of the page, and a run of events, each answered by the service of its time.
  An event is completed (its request settled) before the next one starts. Events are not
  restricted to the controls that the page renders in a state.
\<close>

datatype listing_event = Change string | KeyDown string | ClickSearch | ClickClear

definition listing_step ::
  "remote \<Rightarrow> listing_event \<Rightarrow> listing \<times> request list \<Rightarrow> listing \<times> request list" where
  "listing_step api ev c =
     (case ev of
        Change v \<Rightarrow> ((fst c)\<lparr>inputValue := v\<rparr>, snd c)
      | KeyDown key \<Rightarrow> handleKeyDown api key (fst c) (snd c)
      | ClickSearch \<Rightarrow> handleSearch api (fst c) (snd c)
      | ClickClear \<Rightarrow> handleClear api (fst c) (snd c))"

fun listing_run ::
  "(remote \<times> listing_event) list \<Rightarrow> listing \<times> request list \<Rightarrow> listing \<times> request list" where
  "listing_run [] c = c"
| "listing_run ((api, ev) # evs) c = listing_run evs (listing_step api ev c)"

section \<open>Detail controller (pages/ProductDetails.jsx)\<close>

record detail =
  product :: "product option"
  loading :: bool
  error :: "string option"
  selectedImage :: int

definition detail_init :: detail where
  "detail_init =
     \<lparr>product = None, detail.loading = True, detail.error = None, selectedImage = 0\<rparr>"

definition loadProduct_pending :: "detail \<Rightarrow> detail" where
  "loadProduct_pending s = s\<lparr>detail.loading := True\<rparr>"

definition loadProduct_settle :: "js_error + product \<Rightarrow> detail \<Rightarrow> detail" where
  "loadProduct_settle r s =
     (case r of
        Inr data \<Rightarrow> s\<lparr>product := Some data\<rparr>
      | Inl e \<Rightarrow> s\<lparr>detail.error := Some ''Failed to load product''\<rparr>)
     \<lparr>detail.loading := False\<rparr>"

text \<open>
  The effect with dependency \<^verbatim>\<open>[id]\<close>: it runs after the first render and after every
  render with another identifier, on the state the component has then.
\<close>

definition loadProduct ::
  "remote \<Rightarrow> string \<Rightarrow> detail \<Rightarrow> request list \<Rightarrow> detail \<times> request list" where
  "loadProduct api ident s sent =
     (let p = loadProduct_pending s;
          (r, sent') = fetchProductById api ident sent
      in (loadProduct_settle r p, sent'))"

text \<open>Mounting: the effect runs on the initial state.\<close>

definition mount_detail :: "remote \<Rightarrow> string \<Rightarrow> request list \<Rightarrow> detail \<times> request list" where
  "mount_detail api ident sent = loadProduct api ident detail_init sent"

definition setSelectedImage :: "int \<Rightarrow> detail \<Rightarrow> detail" where
  "setSelectedImage k s = s\<lparr>selectedImage := k\<rparr>"

text \<open>
  The events of the page: the route identifier changes to another one, or an image index
  is selected. These runs complete each load before the next event and do not record the
  current identifier (an \<open>IdChanged\<close> with the identifier already shown is a run that the
  page does not have); the configurations with requests in flight below do both.
\<close>

datatype detail_event = IdChanged string | SelectImage int

definition detail_step ::
  "remote \<Rightarrow> detail_event \<Rightarrow> detail \<times> request list \<Rightarrow> detail \<times> request list" where
  "detail_step api ev c =
     (case ev of
        IdChanged ident \<Rightarrow> loadProduct api ident (fst c) (snd c)
      | SelectImage k \<Rightarrow> (setSelectedImage k (fst c), snd c))"

fun detail_run ::
  "(remote \<times> detail_event) list \<Rightarrow> detail \<times> request list \<Rightarrow> detail \<times> request list" where
  "detail_run [] c = c"
| "detail_run ((api, ev) # evs) c = detail_run evs (detail_step api ev c)"

text \<open>Decimal name of an integer index, as a property key.\<close>

fun digits :: "nat \<Rightarrow> string" where
  "digits n =
     (if n < 10 then [char_of (48 + n)] else digits (n div 10) @ [char_of (48 + n mod 10)])"

definition index_key :: "int \<Rightarrow> string" where
  "index_key k = (if k < 0 then CHR ''-'' # digits (nat (- k)) else digits (nat k))"

text \<open>\<^verbatim>\<open>v[k]\<close> for an integer \<open>k\<close>.\<close>

fun element :: "json \<Rightarrow> int \<Rightarrow> js_error + json" where
  "element JUndefined k = Inl TypeError"
| "element JNull k = Inl TypeError"
| "element (JArr xs) k =
     Inr (if 0 \<le> k \<and> k < int (length xs) then xs ! nat k else JUndefined)"
| "element (JStr s) k =
     Inr (if 0 \<le> k \<and> k < int (length s) then JStr [s ! nat k] else JUndefined)"
| "element (JObj kvs) k = read_prop (JObj kvs) (index_key k)"
| "element v k = Inr JUndefined"

text \<open>
  What the component renders, as far as the branch taken and the image gallery go: the
  source of the main image, and for each thumbnail the index that a click on it passes to
  \<^verbatim>\<open>setSelectedImage\<close> with its source. An exception thrown while rendering the gallery
  is \<open>Inl\<close>. The block after the gallery (category, title, brand, price, rating, stock,
  description) is not modelled: \<open>ProductView\<close> says what the gallery shows, not that
  the rest of the render succeeds.
\<close>

datatype detail_view =
    LoadingView
  | ErrorView string
  | NotFoundView
  | ProductView json "(int \<times> json) list"

definition thumbnails :: "json \<Rightarrow> js_error + (int \<times> json) list" where
  "thumbnails images =
     (case images of
        JArr xs \<Rightarrow> Inr (zip (map int [0..<length xs]) xs)
      | _ \<Rightarrow> Inl TypeError)"

definition gallery :: "product \<Rightarrow> int \<Rightarrow> js_error + detail_view" where
  "gallery p k =
     (case element (get p ''images'') k of
        Inl e \<Rightarrow> Inl e
      | Inr src \<Rightarrow>
          (case thumbnails (get p ''images'') of
             Inl e \<Rightarrow> Inl e
           | Inr ts \<Rightarrow> Inr (ProductView src ts)))"

definition render_details :: "detail \<Rightarrow> js_error + detail_view" where
  "render_details s =
     (if detail.loading s then Inr LoadingView
      else
        (case detail.error s of
           Some (c # m) \<Rightarrow> Inr (ErrorView (c # m))
         | _ \<Rightarrow>
             (case product s of
                None \<Rightarrow> Inr NotFoundView
              | Some p \<Rightarrow> gallery p (selectedImage s))))"

text \<open>The selected index refers to an entry of \<^verbatim>\<open>product.images\<close>.\<close>

definition image_in_bounds :: "detail \<Rightarrow> bool" where
  "image_in_bounds s =
     (case product s of
        None \<Rightarrow> False
      | Some p \<Rightarrow>
          (case get p ''images'' of
             JArr xs \<Rightarrow> 0 \<le> selectedImage s \<and> selectedImage s < int (length xs)
           | _ \<Rightarrow> False))"

section \<open>Requests in flight\<close>

text \<open>
  The runs above complete each action before the next event. Here a request stays in flight
  until an event of its own settles it, so that events can fall between the start of an
  action and its continuation, and requests can settle in any order. A task in flight is
  the continuation that awaits, with the result that its promise will settle with (the
  answer of the service at the time of the request).
\<close>

datatype listing_task =
    LoadTask "js_error + page"
  | SearchTask "js_error + page"
  | ClearTask "js_error + page"

record listing_conf =
  lview :: listing
  ltasks :: "listing_task list"
  lsent :: "request list"

definition settle_task :: "listing_task \<Rightarrow> listing \<Rightarrow> listing" where
  "settle_task t s =
     (case t of
        LoadTask r \<Rightarrow> loadProducts_settle r s
      | SearchTask r \<Rightarrow> performSearch_settle r s
      | ClearTask r \<Rightarrow> handleClear_settle r s)"

definition performSearch_start :: "remote \<Rightarrow> listing_conf \<Rightarrow> listing_conf" where
  "performSearch_start api c =
     (if searchQuery (lview c) = [] then c\<lparr>lview := (lview c)\<lparr>isSearching := False\<rparr>\<rparr>
      else
        (let (r, sent') = searchProducts api (searchQuery (lview c)) (lsent c)
         in \<lparr>lview = performSearch_pending (lview c), ltasks = ltasks c @ [SearchTask r],
             lsent = sent'\<rparr>))"

definition searchQuery_effect_start :: "remote \<Rightarrow> string \<Rightarrow> listing_conf \<Rightarrow> listing_conf" where
  "searchQuery_effect_start api previous c =
     (if searchQuery (lview c) = previous then c else performSearch_start api c)"

definition handleSearch_start :: "remote \<Rightarrow> listing_conf \<Rightarrow> listing_conf" where
  "handleSearch_start api c =
     searchQuery_effect_start api (searchQuery (lview c))
       (c\<lparr>lview := (lview c)\<lparr>searchQuery := trim (inputValue (lview c))\<rparr>\<rparr>)"

definition handleClear_start :: "remote \<Rightarrow> listing_conf \<Rightarrow> listing_conf" where
  "handleClear_start api c =
     (let (r, sent1) = fetchProducts api 30 (lsent c)
      in searchQuery_effect_start api (searchQuery (lview c))
           \<lparr>lview = (lview c)\<lparr>inputValue := [], searchQuery := [], listing.loading := True\<rparr>,
            ltasks = ltasks c @ [ClearTask r], lsent = sent1\<rparr>)"

definition mount_start :: "remote \<Rightarrow> request list \<Rightarrow> listing_conf" where
  "mount_start api sent =
     (let (r, sent') = fetchProducts api 30 sent
      in \<lparr>lview = mount_pending listing_init, ltasks = [LoadTask r], lsent = sent'\<rparr>)"

text \<open>
  The page renders its controls only when it is not loading and shows no error, and the
  Clear button only while searching; an event of a control that is not rendered cannot
  occur.
\<close>

definition offered :: "listing \<Rightarrow> listing_event \<Rightarrow> bool" where
  "offered s ev =
     (\<not> listing.loading s
      \<and> (case listing.error s of Some (c # m) \<Rightarrow> False | _ \<Rightarrow> True)
      \<and> (case ev of ClickClear \<Rightarrow> isSearching s | _ \<Rightarrow> True))"

definition page_event :: "remote \<Rightarrow> listing_event \<Rightarrow> listing_conf \<Rightarrow> listing_conf" where
  "page_event api ev c =
     (case ev of
        Change v \<Rightarrow> c\<lparr>lview := (lview c)\<lparr>inputValue := v\<rparr>\<rparr>
      | KeyDown key \<Rightarrow> (if key = ''Enter'' then handleSearch_start api c else c)
      | ClickSearch \<Rightarrow> handleSearch_start api c
      | ClickClear \<Rightarrow> handleClear_start api c)"

datatype listing_async_event = Page listing_event | RequestSettles nat

definition listing_async_step ::
  "remote \<Rightarrow> listing_async_event \<Rightarrow> listing_conf \<Rightarrow> listing_conf" where
  "listing_async_step api ev c =
     (case ev of
        Page e \<Rightarrow> (if offered (lview c) e then page_event api e c else c)
      | RequestSettles i \<Rightarrow>
          (if i < length (ltasks c)
           then c\<lparr>lview := settle_task (ltasks c ! i) (lview c),
                  ltasks := take i (ltasks c) @ drop (Suc i) (ltasks c)\<rparr>
           else c))"

fun listing_async_run ::
  "(remote \<times> listing_async_event) list \<Rightarrow> listing_conf \<Rightarrow> listing_conf" where
  "listing_async_run [] c = c"
| "listing_async_run ((api, ev) # evs) c = listing_async_run evs (listing_async_step api ev c)"

text \<open>
  The detail page: \<open>dident\<close> is the identifier of the route at the last render, so that
  the effect runs only when the identifier changes. Nothing cancels a load in flight when
  the identifier changes.
\<close>

record detail_conf =
  dview :: detail
  dident :: string
  dtasks :: "(js_error + product) list"
  dsent :: "request list"

definition loadProduct_start :: "remote \<Rightarrow> string \<Rightarrow> detail_conf \<Rightarrow> detail_conf" where
  "loadProduct_start api ident c =
     (let (r, sent') = fetchProductById api ident (dsent c)
      in \<lparr>dview = loadProduct_pending (dview c), dident = ident, dtasks = dtasks c @ [r],
          dsent = sent'\<rparr>)"

definition mount_detail_start :: "remote \<Rightarrow> string \<Rightarrow> request list \<Rightarrow> detail_conf" where
  "mount_detail_start api ident sent =
     loadProduct_start api ident
       \<lparr>dview = detail_init, dident = ident, dtasks = [], dsent = sent\<rparr>"

datatype detail_async_event = RouteTo string | ClickThumbnail int | LoadSettles nat

definition detail_async_step ::
  "remote \<Rightarrow> detail_async_event \<Rightarrow> detail_conf \<Rightarrow> detail_conf" where
  "detail_async_step api ev c =
     (case ev of
        RouteTo ident \<Rightarrow> (if ident = dident c then c else loadProduct_start api ident c)
      | ClickThumbnail k \<Rightarrow> c\<lparr>dview := setSelectedImage k (dview c)\<rparr>
      | LoadSettles i \<Rightarrow>
          (if i < length (dtasks c)
           then c\<lparr>dview := loadProduct_settle (dtasks c ! i) (dview c),
                  dtasks := take i (dtasks c) @ drop (Suc i) (dtasks c)\<rparr>
           else c))"

fun detail_async_run ::
  "(remote \<times> detail_async_event) list \<Rightarrow> detail_conf \<Rightarrow> detail_conf" where
  "detail_async_run [] c = c"
| "detail_async_run ((api, ev) # evs) c = detail_async_run evs (detail_async_step api ev c)"

text \<open>
  In the listing page, \<^verbatim>\<open>loading\<close> is true exactly when a request is in flight, and at
  most one is. In the detail page, \<^verbatim>\<open>loading\<close> is true only when a load is in flight.
\<close>

definition one_request :: "listing_conf \<Rightarrow> bool" where
  "one_request c = (listing.loading (lview c) = (ltasks c \<noteq> []) \<and> length (ltasks c) \<le> 1)"

definition loading_has_task :: "detail_conf \<Rightarrow> bool" where
  "loading_has_task c = (\<not> detail.loading (dview c) \<or> dtasks c \<noteq> [])"

text \<open>
  The component has something to show besides the loading view: a product, or an error
  message that is not empty.
\<close>

definition has_content :: "detail \<Rightarrow> bool" where
  "has_content s =
     (product s \<noteq> None \<or> (case detail.error s of Some (c # m) \<Rightarrow> True | _ \<Rightarrow> False))"

section \<open>Example records and services\<close>

text \<open>
  Two raw records as the service sends them (the first with two fields that are not
  listed, the second without a brand), their cleaned forms, and two services: one that
  answers every request, with status 404 and a message for an unknown identifier, and one
  that is unreachable.
\<close>

definition pen_fields :: "(string \<times> json) list" where
  "pen_fields =
     [(''id'', JNum 1), (''title'', JStr ''Pen''), (''description'', JStr ''Blue ink''),
      (''price'', JNum (3 / 2)), (''discountPercentage'', JNum 0), (''rating'', JNum 4),
      (''stock'', JNum 10), (''brand'', JStr ''Acme''), (''category'', JStr ''office''),
      (''thumbnail'', JStr ''pen.png''),
      (''images'', JArr [JStr ''pen1.png'', JStr ''pen2.png'', JStr ''pen3.png'']),
      (''sku'', JStr ''P-1''), (''weight'', JNum 2)]"

definition phone_fields :: "(string \<times> json) list" where
  "phone_fields =
     [(''id'', JNum 2), (''title'', JStr ''Phone''), (''description'', JStr ''Smart''),
      (''price'', JNum 549), (''discountPercentage'', JNum 5), (''rating'', JNum 3),
      (''stock'', JNum 0), (''category'', JStr ''phones''),
      (''thumbnail'', JStr ''phone.png''), (''images'', JArr [JStr ''phone1.png''])]"

definition pen_product :: product where
  "pen_product =
     [(''id'', JNum 1), (''title'', JStr ''Pen''), (''description'', JStr ''Blue ink''),
      (''price'', JNum (3 / 2)), (''discountPercentage'', JNum 0), (''rating'', JNum 4),
      (''stock'', JNum 10), (''brand'', JStr ''Acme''), (''category'', JStr ''office''),
      (''thumbnail'', JStr ''pen.png''),
      (''images'', JArr [JStr ''pen1.png'', JStr ''pen2.png'', JStr ''pen3.png''])]"

definition phone_product :: product where
  "phone_product =
     [(''id'', JNum 2), (''title'', JStr ''Phone''), (''description'', JStr ''Smart''),
      (''price'', JNum 549), (''discountPercentage'', JNum 5), (''rating'', JNum 3),
      (''stock'', JNum 0), (''brand'', JUndefined), (''category'', JStr ''phones''),
      (''thumbnail'', JStr ''phone.png''), (''images'', JArr [JStr ''phone1.png''])]"

definition listing_body :: "json list \<Rightarrow> json" where
  "listing_body xs =
     JObj [(''products'', JArr xs), (''total'', JNum (of_nat (length xs))), (''skip'', JNum 0),
           (''limit'', JNum 30)]"

definition ok :: "json \<Rightarrow> fetch_outcome" where
  "ok v = Resolved \<lparr>status = 200, body = Some v\<rparr>"

definition not_found :: fetch_outcome where
  "not_found =
     Resolved \<lparr>status = 404, body = Some (JObj [(''message'', JStr ''Product not found'')])\<rparr>"

definition shop :: remote where
  "shop req =
     (case req of
        ProductsReq n \<Rightarrow> ok (listing_body [JObj pen_fields, JObj phone_fields])
      | ProductReq i \<Rightarrow>
          (if i = ''1'' then ok (JObj pen_fields)
           else if i = ''2'' then ok (JObj phone_fields)
           else not_found)
      | SearchReq q \<Rightarrow>
          (if q = ''phone'' then ok (listing_body [JObj phone_fields]) else ok (listing_body []))
      | _ \<Rightarrow> Rejected)"

definition offline :: remote where
  "offline req = Rejected"

section \<open>Normalization\<close>

lemma collect_entry_obj:
  "collect (entry (JObj raw)) ks =
     Inr (map (\<lambda>k. (k, case map_of raw k of None \<Rightarrow> JUndefined | Some v \<Rightarrow> v)) ks)"
  by (induction ks) (simp_all add: entry_def)

lemma cleanProductData_obj:
  "cleanProductData (JObj raw) =
     Inr (map (\<lambda>k. (k, case map_of raw k of None \<Rightarrow> JUndefined | Some v \<Rightarrow> v)) product_fields)"
  by (simp add: cleanProductData_def collect_entry_obj)

lemma map_of_tabulate:
  "map_of (map (\<lambda>k. (k, f k)) ks) k = (if k \<in> set ks then Some (f k) else None)"
  by (induction ks) auto

lemma clean_pen: "cleanProductData (JObj pen_fields) = Inr pen_product"
  by (simp add: cleanProductData_obj product_fields_def pen_fields_def pen_product_def)

lemma clean_phone: "cleanProductData (JObj phone_fields) = Inr phone_product"
  by (simp add: cleanProductData_obj product_fields_def phone_fields_def phone_product_def)

text \<open>
  Claim C1. For every raw record (a decoded object) that has at least the eleven listed
  fields, \<^verbatim>\<open>cleanProductData\<close> returns, without throwing, an object whose fields are
  exactly the eleven listed names, in the order of the literal; each of them has the value
  it has in the raw record, and no other name is a field of the result.
\<close>

theorem cleanProductData_allow_list:
  assumes "set product_fields \<subseteq> fst ` set raw"
  shows "\<exists>p. cleanProductData (JObj raw) = Inr p
    \<and> map fst p =
        [''id'', ''title'', ''description'', ''price'', ''discountPercentage'', ''rating'',
         ''stock'', ''brand'', ''category'', ''thumbnail'', ''images'']
    \<and> (\<forall>k. map_of p k = (if k \<in> set product_fields then map_of raw k else None))"
proof -
  let ?f = "\<lambda>k. case map_of raw k of None \<Rightarrow> JUndefined | Some v \<Rightarrow> v"
  let ?p = "map (\<lambda>k. (k, ?f k)) product_fields"
  have res: "cleanProductData (JObj raw) = Inr ?p"
    by (rule cleanProductData_obj)
  have keys: "map fst ?p = product_fields"
    by (simp add: comp_def)
  have vals: "map_of ?p k = (if k \<in> set product_fields then map_of raw k else None)" for k
  proof (cases "k \<in> set product_fields")
    case True
    with assms have "k \<in> fst ` set raw" by blast
    then obtain v where "map_of raw k = Some v"
      by (metis map_of_eq_None_iff not_Some_eq)
    with True show ?thesis by (simp add: map_of_tabulate)
  next
    case False
    then show ?thesis by (simp add: map_of_tabulate)
  qed
  show ?thesis
  proof (intro exI conjI allI)
    show "cleanProductData (JObj raw) = Inr ?p"
      by (rule res)
    show "map fst ?p =
        [''id'', ''title'', ''description'', ''price'', ''discountPercentage'', ''rating'',
         ''stock'', ''brand'', ''category'', ''thumbnail'', ''images'']"
      using keys by (simp add: product_fields_def)
    show "map_of ?p k = (if k \<in> set product_fields then map_of raw k else None)" for k
      by (rule vals)
  qed
qed

text \<open>
  The record \<open>pen_fields\<close> has the eleven fields and two more; its cleaned form has eleven
  fields, keeps the title and has no \<^verbatim>\<open>sku\<close>.
\<close>

theorem cleanProductData_allow_list_witness:
  "set product_fields \<subseteq> fst ` set pen_fields
   \<and> (\<exists>p. cleanProductData (JObj pen_fields) = Inr p
        \<and> length p = 11
        \<and> map_of p ''title'' = Some (JStr ''Pen'')
        \<and> map_of p ''sku'' = None)"
proof -
  have h: "set product_fields \<subseteq> fst ` set pen_fields"
    by (simp add: product_fields_def pen_fields_def)
  from cleanProductData_allow_list [OF h] obtain p where
    p: "cleanProductData (JObj pen_fields) = Inr p"
    and keys: "map fst p =
        [''id'', ''title'', ''description'', ''price'', ''discountPercentage'', ''rating'',
         ''stock'', ''brand'', ''category'', ''thumbnail'', ''images'']"
    and vals: "\<forall>k. map_of p k = (if k \<in> set product_fields then map_of pen_fields k else None)"
    by (elim exE conjE)
  from keys have "length (map fst p) = 11" by simp
  then have len: "length p = 11" by simp
  have "map_of p ''title'' = Some (JStr ''Pen'')" "map_of p ''sku'' = None"
    by (simp_all add: vals product_fields_def pen_fields_def)
  with h p len show ?thesis by blast
qed

text \<open>
  Claim C8 says that a raw record without a brand is cleaned to a product whose brand is
  the empty string. On the record below, which has the ten other fields and no brand,
  the cleaned product has the field \<^verbatim>\<open>brand\<close> with the value \<^verbatim>\<open>undefined\<close>.
\<close>

theorem brand_absent_is_undefined:
  "cleanProductData
     (JObj [(''id'', JNum 2), (''title'', JStr ''Phone''), (''description'', JStr ''Smart''),
            (''price'', JNum 549), (''discountPercentage'', JNum 5), (''rating'', JNum 3),
            (''stock'', JNum 0), (''category'', JStr ''phones''),
            (''thumbnail'', JStr ''phone.png''), (''images'', JArr [JStr ''phone1.png''])]) =
     Inr [(''id'', JNum 2), (''title'', JStr ''Phone''), (''description'', JStr ''Smart''),
          (''price'', JNum 549), (''discountPercentage'', JNum 5), (''rating'', JNum 3),
          (''stock'', JNum 0), (''brand'', JUndefined), (''category'', JStr ''phones''),
          (''thumbnail'', JStr ''phone.png''), (''images'', JArr [JStr ''phone1.png''])]
   \<and> get phone_product ''brand'' = JUndefined
   \<and> get phone_product ''brand'' \<noteq> JStr []"
  by (simp add: cleanProductData_obj product_fields_def get_def phone_product_def)

text \<open>
  Claim C8, as the code has it. For every raw record (a decoded object) in which the
  brand field is absent, \<^verbatim>\<open>cleanProductData\<close> returns a product that has the field
  \<^verbatim>\<open>brand\<close> with the value \<^verbatim>\<open>undefined\<close>; reading it does not give the empty string.
\<close>

theorem cleanProductData_brand_absent:
  assumes "''brand'' \<notin> fst ` set raw"
  shows "\<exists>p. cleanProductData (JObj raw) = Inr p \<and> map_of p ''brand'' = Some JUndefined
    \<and> get p ''brand'' \<noteq> JStr []"
proof -
  from assms have "map_of raw ''brand'' = None"
    by (simp add: map_of_eq_None_iff)
  then show ?thesis
    by (simp add: cleanProductData_obj get_def map_of_tabulate product_fields_def)
qed

theorem cleanProductData_brand_absent_witness:
  "''brand'' \<notin> fst ` set phone_fields
   \<and> (\<exists>p. cleanProductData (JObj phone_fields) = Inr p \<and> map_of p ''brand'' = Some JUndefined)"
proof -
  have h: "''brand'' \<notin> fst ` set phone_fields"
    by (simp add: phone_fields_def)
  from cleanProductData_brand_absent [OF h] h show ?thesis by blast
qed

section \<open>Evaluation of the example services\<close>

lemma fetchProducts_shop:
  "fetchProducts shop n sent =
     (Inr \<lparr>page_products = [pen_product, phone_product],
           page_total = JNum 2, page_skip = JNum 0, page_limit = JNum 30\<rparr>,
      sent @ [ProductsReq n])"
  by (simp add: fetchProducts_def fetch_def shop_def ok_def json_of_def page_of_def
      clean_all_def listing_body_def clean_pen clean_phone)

lemma searchProducts_shop_phone:
  "searchProducts shop ''phone'' sent =
     (Inr \<lparr>page_products = [phone_product],
           page_total = JNum 1, page_skip = JNum 0, page_limit = JNum 30\<rparr>,
      sent @ [SearchReq ''phone''])"
  by (simp add: searchProducts_def fetch_def shop_def ok_def json_of_def page_of_def
      clean_all_def listing_body_def clean_phone)

lemma fetchProducts_offline:
  "fetchProducts offline n sent = (Inl NetworkError, sent @ [ProductsReq n])"
  by (simp add: fetchProducts_def fetch_def offline_def json_of_def)

lemma fetchProductById_shop:
  "fetchProductById shop ''1'' sent = (Inr pen_product, sent @ [ProductReq ''1''])"
  "fetchProductById shop ''2'' sent = (Inr phone_product, sent @ [ProductReq ''2''])"
  by (simp_all add: fetchProductById_def fetch_def shop_def ok_def json_of_def clean_pen
      clean_phone)

lemma fetchProductById_shop_missing:
  "fetchProductById shop ''9999'' sent =
     (Inr [(''id'', JUndefined), (''title'', JUndefined), (''description'', JUndefined),
      (''price'', JUndefined), (''discountPercentage'', JUndefined), (''rating'', JUndefined),
      (''stock'', JUndefined), (''brand'', JUndefined), (''category'', JUndefined),
      (''thumbnail'', JUndefined), (''images'', JUndefined)], sent @ [ProductReq ''9999''])"
  by (simp add: fetchProductById_def fetch_def shop_def not_found_def json_of_def
      cleanProductData_obj product_fields_def)

lemma fetchProductById_offline:
  "fetchProductById offline ident sent = (Inl NetworkError, sent @ [ProductReq ident])"
  by (simp add: fetchProductById_def fetch_def offline_def json_of_def)

lemma trim_phone: "trim ''phone'' = ''phone''"
  by (simp add: trim_def is_ws_def)

lemma trim_blank: "trim ''   '' = []"
  by (simp add: trim_def is_ws_def)

lemma images_pen:
  "get pen_product ''images'' = JArr [JStr ''pen1.png'', JStr ''pen2.png'', JStr ''pen3.png'']"
  by (simp add: get_def pen_product_def)

lemma images_phone: "get phone_product ''images'' = JArr [JStr ''phone1.png'']"
  by (simp add: get_def phone_product_def)

lemma mount_shop:
  "mount shop [] =
     (\<lparr>products = [pen_product, phone_product],
       listing.loading = False, listing.error = None, inputValue = [], searchQuery = [],
       isSearching = False\<rparr>, [ProductsReq 30])"
  by (simp add: mount_def fetchProducts_shop mount_pending_def loadProducts_pending_def
      loadProducts_settle_def listing_init_def)

lemma mount_offline:
  "mount offline [] =
     (\<lparr>products = [], listing.loading = False,
       listing.error = Some ''Failed to load products'', inputValue = [], searchQuery = [],
       isSearching = False\<rparr>, [ProductsReq 30])"
  by (simp add: mount_def fetchProducts_offline mount_pending_def loadProducts_pending_def
      loadProducts_settle_def listing_init_def)

lemma search_phone_shop:
  "listing_run [(shop, Change ''phone''), (shop, ClickSearch)] (mount shop []) =
     (\<lparr>products = [phone_product],
       listing.loading = False, listing.error = None, inputValue = ''phone'',
       searchQuery = ''phone'', isSearching = True\<rparr>, [ProductsReq 30, SearchReq ''phone''])"
  by (simp add: mount_shop listing_step_def handleSearch_def searchQuery_effect_def
      performSearch_def performSearch_pending_def performSearch_settle_def trim_phone
      searchProducts_shop_phone)

lemma mount_detail_shop:
  "mount_detail shop ''1'' [] =
     (\<lparr>product = Some pen_product, detail.loading = False, detail.error = None,
       selectedImage = 0\<rparr>, [ProductReq ''1''])"
  "mount_detail shop ''2'' [] =
     (\<lparr>product = Some phone_product, detail.loading = False, detail.error = None,
       selectedImage = 0\<rparr>, [ProductReq ''2''])"
  by (simp_all add: mount_detail_def loadProduct_def loadProduct_pending_def
      loadProduct_settle_def detail_init_def fetchProductById_shop)

section \<open>Listing controller\<close>

subsection \<open>Searching implies a committed query\<close>

lemma performSearch_inv:
  "isSearching (fst (performSearch api s sent)) \<Longrightarrow>
   searchQuery (fst (performSearch api s sent)) \<noteq> []"
  by (auto simp: performSearch_def performSearch_settle_def performSearch_pending_def
      split_def Let_def split: sum.splits if_splits)

lemma searchQuery_effect_inv:
  assumes "searchQuery s = previous \<Longrightarrow> isSearching s \<Longrightarrow> searchQuery s \<noteq> []"
    and "isSearching (fst (searchQuery_effect api previous s sent))"
  shows "searchQuery (fst (searchQuery_effect api previous s sent)) \<noteq> []"
  using assms performSearch_inv [of api s sent]
  by (auto simp: searchQuery_effect_def split: if_splits)

lemma handleSearch_inv:
  assumes "isSearching s \<Longrightarrow> searchQuery s \<noteq> []"
    and "isSearching (fst (handleSearch api s sent))"
  shows "searchQuery (fst (handleSearch api s sent)) \<noteq> []"
  using assms(2) unfolding handleSearch_def
  by (rule searchQuery_effect_inv [rotated]) (use assms(1) in auto)

lemma handleClear_pending_inv:
  assumes "isSearching s \<Longrightarrow> searchQuery s \<noteq> []"
    and "isSearching (fst (handleClear_pending api s sent))"
  shows "searchQuery (fst (handleClear_pending api s sent)) \<noteq> []"
  using assms(2) unfolding handleClear_pending_def
  by (rule searchQuery_effect_inv [rotated]) (use assms(1) in auto)

lemma handleClear_settle_same [simp]:
  "isSearching (handleClear_settle r s) = isSearching s"
  "searchQuery (handleClear_settle r s) = searchQuery s"
  "inputValue (handleClear_settle r s) = inputValue s"
  by (simp_all add: handleClear_settle_def split: sum.splits)

lemma handleClear_inv:
  assumes "isSearching s \<Longrightarrow> searchQuery s \<noteq> []"
    and "isSearching (fst (handleClear api s sent))"
  shows "searchQuery (fst (handleClear api s sent)) \<noteq> []"
  using assms handleClear_pending_inv [of s api "snd (fetchProducts api 30 sent)"]
  by (simp add: handleClear_def split_def Let_def)

lemma listing_step_inv:
  assumes "isSearching (fst c) \<Longrightarrow> searchQuery (fst c) \<noteq> []"
    and "isSearching (fst (listing_step api ev c))"
  shows "searchQuery (fst (listing_step api ev c)) \<noteq> []"
proof (cases ev)
  case (Change v)
  with assms show ?thesis by (simp add: listing_step_def)
next
  case (KeyDown key)
  with assms handleSearch_inv [of "fst c" api "snd c"] show ?thesis
    by (simp add: listing_step_def handleKeyDown_def split: if_splits)
next
  case ClickSearch
  with assms handleSearch_inv [of "fst c" api "snd c"] show ?thesis
    by (simp add: listing_step_def)
next
  case ClickClear
  with assms handleClear_inv [of "fst c" api "snd c"] show ?thesis
    by (simp add: listing_step_def)
qed

lemma listing_run_inv:
  assumes "isSearching (fst c) \<Longrightarrow> searchQuery (fst c) \<noteq> []"
    and "isSearching (fst (listing_run evs c))"
  shows "searchQuery (fst (listing_run evs c)) \<noteq> []"
  using assms
proof (induction evs arbitrary: c)
  case Nil
  then show ?case by simp
next
  case (Cons e evs)
  obtain api ev where e: "e = (api, ev)" by (cases e)
  show ?case
    using Cons.prems(2) unfolding e listing_run.simps
  proof (rule Cons.IH [rotated])
    assume "isSearching (fst (listing_step api ev c))"
    then show "searchQuery (fst (listing_step api ev c)) \<noteq> []"
      by (rule listing_step_inv [rotated]) (rule Cons.prems(1))
  qed
qed

lemma mount_not_searching: "\<not> isSearching (fst (mount api sent))"
  by (simp add: mount_def mount_pending_def loadProducts_pending_def loadProducts_settle_def
      listing_init_def split_def Let_def split: sum.splits)

text \<open>
  Claim C9. After mounting and after every completed event of the page (typing, a
  committed search by button or Enter, a clear), with whatever answers of the service: if
  \<^verbatim>\<open>isSearching\<close> is true then \<^verbatim>\<open>searchQuery\<close> is not the empty string.
\<close>

theorem searching_implies_query:
  "isSearching (fst (listing_run evs (mount api sent))) \<longrightarrow>
   searchQuery (fst (listing_run evs (mount api sent))) \<noteq> []"
  using listing_run_inv [of "mount api sent" evs] mount_not_searching [of api sent]
  by blast

theorem searching_implies_query_witness:
  "isSearching (fst (listing_run [(shop, Change ''phone''), (shop, ClickSearch)] (mount shop [])))
   \<and> searchQuery (fst (listing_run [(shop, Change ''phone''), (shop, ClickSearch)] (mount shop [])))
       \<noteq> []"
  using searching_implies_query [of "[(shop, Change ''phone''), (shop, ClickSearch)]" shop "[]"]
  unfolding search_phone_shop by simp

subsection \<open>Committing a blank input\<close>

text \<open>
  Claim C2 says that committing an input that trims to the empty string does what
  \<^verbatim>\<open>handleClear\<close> does, with a new request for the default listing. After a search for
  \<^verbatim>\<open>phone\<close>, committing three spaces sends no request and leaves the search results in
  \<^verbatim>\<open>products\<close> and the spaces in \<^verbatim>\<open>inputValue\<close>; a clear in the same state sends the
  request for the default listing, stores its two products and empties \<^verbatim>\<open>inputValue\<close>.
\<close>

theorem blank_search_is_not_clear:
  "listing_run [(shop, Change ''   ''), (shop, ClickSearch)]
     (listing_run [(shop, Change ''phone''), (shop, ClickSearch)] (mount shop [])) =
     (\<lparr>products = [phone_product],
       listing.loading = False, listing.error = None, inputValue = ''   '',
       searchQuery = [], isSearching = False\<rparr>, [ProductsReq 30, SearchReq ''phone''])
   \<and> listing_run [(shop, ClickClear)]
     (listing_run [(shop, Change ''phone''), (shop, ClickSearch)] (mount shop [])) =
     (\<lparr>products = [pen_product, phone_product],
       listing.loading = False, listing.error = None, inputValue = [],
       searchQuery = [], isSearching = False\<rparr>,
      [ProductsReq 30, SearchReq ''phone'', ProductsReq 30])"
  unfolding search_phone_shop
  by (simp add: listing_step_def handleSearch_def searchQuery_effect_def
      performSearch_def trim_blank handleClear_def handleClear_pending_def
      handleClear_settle_def fetchProducts_shop)

text \<open>
  Claim C2, as the code has it. In a state where \<^verbatim>\<open>isSearching\<close> implies a non-empty
  \<^verbatim>\<open>searchQuery\<close> (every state of a run is one), committing an input that trims to the
  empty string sets \<^verbatim>\<open>searchQuery\<close> to the empty string and \<^verbatim>\<open>isSearching\<close> to false,
  sends no request and changes nothing else: \<^verbatim>\<open>products\<close>, \<^verbatim>\<open>loading\<close>, \<^verbatim>\<open>error\<close> and
  \<^verbatim>\<open>inputValue\<close> keep their values.
\<close>

theorem handleSearch_blank:
  assumes "trim (inputValue s) = []"
    and "isSearching s \<longrightarrow> searchQuery s \<noteq> []"
  shows "handleSearch api s sent = (s\<lparr>searchQuery := [], isSearching := False\<rparr>, sent)"
  using assms
  by (cases "searchQuery s = []")
    (simp_all add: handleSearch_def searchQuery_effect_def performSearch_def)

theorem handleSearch_blank_witness:
  "trim (inputValue \<lparr>products = [phone_product], listing.loading = False,
      listing.error = None, inputValue = ''   '', searchQuery = ''phone'',
      isSearching = True\<rparr>) = []
   \<and> searchQuery \<lparr>products = [phone_product], listing.loading = False,
      listing.error = None, inputValue = ''   '', searchQuery = ''phone'',
      isSearching = True\<rparr> \<noteq> []
   \<and> handleSearch shop \<lparr>products = [phone_product], listing.loading = False,
      listing.error = None, inputValue = ''   '', searchQuery = ''phone'',
      isSearching = True\<rparr> [ProductsReq 30, SearchReq ''phone''] =
     (\<lparr>products = [phone_product], listing.loading = False, listing.error = None,
       inputValue = ''   '', searchQuery = [], isSearching = False\<rparr>,
      [ProductsReq 30, SearchReq ''phone''])"
  using handleSearch_blank [of "\<lparr>products = [phone_product], listing.loading = False,
      listing.error = None, inputValue = ''   '', searchQuery = ''phone'',
      isSearching = True\<rparr>" shop "[ProductsReq 30, SearchReq ''phone'']"]
  by (simp add: trim_blank)

subsection \<open>Clearing\<close>

lemma handleClear_pending_fields:
  "inputValue (fst (handleClear_pending api s sent)) = []"
  "searchQuery (fst (handleClear_pending api s sent)) = []"
  "listing.loading (fst (handleClear_pending api s sent))"
  "snd (handleClear_pending api s sent) = sent"
  by (simp_all add: handleClear_pending_def searchQuery_effect_def performSearch_def)

text \<open>
  Claim C10. \<^verbatim>\<open>handleClear\<close> ends with \<^verbatim>\<open>inputValue\<close> and \<^verbatim>\<open>searchQuery\<close> empty
  whatever the service answers; so it does with the unreachable service, where the
  request fails and the error message is stored.
\<close>

theorem handleClear_resets_input:
  "inputValue (fst (handleClear api s sent)) = []
   \<and> searchQuery (fst (handleClear api s sent)) = []
   \<and> inputValue (fst (handleClear offline s sent)) = []
   \<and> searchQuery (fst (handleClear offline s sent)) = []
   \<and> listing.error (fst (handleClear offline s sent)) = Some ''Failed to load products''"
  by (simp add: handleClear_def split_def Let_def handleClear_pending_fields
      fetchProducts_offline handleClear_settle_def split: sum.splits)

section \<open>The loading flag\<close>

subsection \<open>A run with one request at a time is a start followed by its settling\<close>

lemma mount_is_start_then_settle:
  "listing_async_step api' (RequestSettles 0) (mount_start api sent) =
     \<lparr>lview = fst (mount api sent), ltasks = [], lsent = snd (mount api sent)\<rparr>"
  by (simp add: listing_async_step_def mount_start_def mount_def settle_task_def split_def
      Let_def)

lemma performSearch_is_start_then_settle:
  "(if ltasks (performSearch_start api \<lparr>lview = s, ltasks = [], lsent = sent\<rparr>) = []
    then performSearch_start api \<lparr>lview = s, ltasks = [], lsent = sent\<rparr>
    else listing_async_step api' (RequestSettles 0)
           (performSearch_start api \<lparr>lview = s, ltasks = [], lsent = sent\<rparr>)) =
     \<lparr>lview = fst (performSearch api s sent), ltasks = [],
      lsent = snd (performSearch api s sent)\<rparr>"
  by (simp add: listing_async_step_def performSearch_start_def performSearch_def
      settle_task_def split_def Let_def)

lemma handleSearch_is_start_then_settle:
  "(if ltasks (handleSearch_start api \<lparr>lview = s, ltasks = [], lsent = sent\<rparr>) = []
    then handleSearch_start api \<lparr>lview = s, ltasks = [], lsent = sent\<rparr>
    else listing_async_step api' (RequestSettles 0)
           (handleSearch_start api \<lparr>lview = s, ltasks = [], lsent = sent\<rparr>)) =
     \<lparr>lview = fst (handleSearch api s sent), ltasks = [],
      lsent = snd (handleSearch api s sent)\<rparr>"
  by (simp add: handleSearch_start_def handleSearch_def searchQuery_effect_start_def
      searchQuery_effect_def listing_async_step_def performSearch_start_def performSearch_def
      settle_task_def split_def Let_def)

lemma handleClear_is_start_then_settle:
  "listing_async_step api' (RequestSettles 0)
     (handleClear_start api \<lparr>lview = s, ltasks = [], lsent = sent\<rparr>) =
     \<lparr>lview = fst (handleClear api s sent), ltasks = [],
      lsent = snd (handleClear api s sent)\<rparr>"
  by (simp add: listing_async_step_def handleClear_start_def handleClear_def
      handleClear_pending_def searchQuery_effect_start_def searchQuery_effect_def
      performSearch_start_def performSearch_def settle_task_def split_def Let_def)

lemma loadProduct_is_start_then_settle:
  "detail_async_step api' (LoadSettles 0)
     (loadProduct_start api ident \<lparr>dview = s, dident = previous, dtasks = [], dsent = sent\<rparr>) =
     \<lparr>dview = fst (loadProduct api ident s sent), dident = ident, dtasks = [],
      dsent = snd (loadProduct api ident s sent)\<rparr>"
  by (simp add: detail_async_step_def loadProduct_start_def loadProduct_def split_def Let_def)

subsection \<open>Loading and the requests in flight\<close>

lemma settle_task_not_loading: "\<not> listing.loading (settle_task t s)"
  by (cases t) (simp_all add: settle_task_def loadProducts_settle_def performSearch_settle_def
      handleClear_settle_def split: sum.splits)

lemma loadProduct_settle_not_loading: "\<not> detail.loading (loadProduct_settle r d)"
  by (simp add: loadProduct_settle_def split: sum.splits)

lemma performSearch_start_one:
  assumes "ltasks c = []" and "\<not> listing.loading (lview c)"
  shows "one_request (performSearch_start api c)"
  using assms
  by (simp add: one_request_def performSearch_start_def performSearch_pending_def split_def
      Let_def)

lemma searchQuery_effect_start_idle:
  assumes "ltasks c = []" and "\<not> listing.loading (lview c)"
  shows "one_request (searchQuery_effect_start api previous c)"
  using assms performSearch_start_one [of c api]
  by (simp add: searchQuery_effect_start_def one_request_def)

lemma handleSearch_start_one:
  assumes "ltasks c = []" and "\<not> listing.loading (lview c)"
  shows "one_request (handleSearch_start api c)"
  unfolding handleSearch_start_def
  by (rule searchQuery_effect_start_idle) (simp_all add: assms)

lemma handleClear_start_view:
  "listing.loading (lview (handleClear_start api c))"
  "ltasks (handleClear_start api c) = ltasks c @ [ClearTask (fst (fetchProducts api 30 (lsent c)))]"
  "lsent (handleClear_start api c) = snd (fetchProducts api 30 (lsent c))"
  by (simp_all add: handleClear_start_def searchQuery_effect_start_def performSearch_start_def
      split_def Let_def)

lemma handleClear_start_one:
  assumes "ltasks c = []"
  shows "one_request (handleClear_start api c)"
  using assms by (simp add: one_request_def handleClear_start_view)

lemma page_event_one:
  assumes "one_request c" and "offered (lview c) e"
  shows "one_request (page_event api e c)"
proof -
  from assms have idle: "ltasks c = []" "\<not> listing.loading (lview c)"
    by (auto simp: one_request_def offered_def)
  show ?thesis
  proof (cases e)
    case (Change v)
    with idle show ?thesis by (simp add: page_event_def one_request_def)
  next
    case (KeyDown key)
    with idle handleSearch_start_one [of c api] show ?thesis
      by (simp add: page_event_def one_request_def)
  next
    case ClickSearch
    with idle handleSearch_start_one [of c api] show ?thesis
      by (simp add: page_event_def)
  next
    case ClickClear
    with idle handleClear_start_one [of c api] show ?thesis
      by (simp add: page_event_def)
  qed
qed

lemma settle_one:
  assumes "one_request c" and "i < length (ltasks c)"
  shows "one_request (c\<lparr>lview := settle_task (ltasks c ! i) (lview c),
           ltasks := take i (ltasks c) @ drop (Suc i) (ltasks c)\<rparr>)"
proof -
  from assms have "length (ltasks c) = 1" and "i = 0"
    by (auto simp: one_request_def)
  then show ?thesis
    by (simp add: one_request_def settle_task_not_loading)
qed

lemma listing_async_step_one:
  "one_request c \<Longrightarrow> one_request (listing_async_step api ev c)"
  by (cases ev) (simp_all add: listing_async_step_def page_event_one settle_one)

lemma listing_async_run_one:
  "one_request c \<Longrightarrow> one_request (listing_async_run evs c)"
proof (induction evs arbitrary: c)
  case Nil
  then show ?case by simp
next
  case (Cons e evs)
  obtain api ev where e: "e = (api, ev)" by (cases e)
  from Cons.prems have "one_request (listing_async_step api ev c)"
    by (rule listing_async_step_one)
  then show ?case
    unfolding e listing_async_run.simps by (rule Cons.IH)
qed

lemma mount_start_one: "one_request (mount_start api sent)"
  by (simp add: one_request_def mount_start_def mount_pending_def loadProducts_pending_def
      split_def Let_def)

lemma loadProduct_start_view:
  "dview (loadProduct_start api ident c) = (dview c)\<lparr>detail.loading := True\<rparr>"
  "dtasks (loadProduct_start api ident c) = dtasks c @ [fst (fetchProductById api ident (dsent c))]"
  "dsent (loadProduct_start api ident c) = dsent c @ [ProductReq ident]"
  "dident (loadProduct_start api ident c) = ident"
  by (simp_all add: loadProduct_start_def loadProduct_pending_def split_def Let_def
      fetchProductById_def fetch_def)

lemma detail_async_step_has_task:
  "loading_has_task c \<Longrightarrow> loading_has_task (detail_async_step api ev c)"
  by (cases ev)
    (auto simp: detail_async_step_def loading_has_task_def loadProduct_start_view
      setSelectedImage_def loadProduct_settle_not_loading)

lemma detail_async_run_has_task:
  "loading_has_task c \<Longrightarrow> loading_has_task (detail_async_run evs c)"
proof (induction evs arbitrary: c)
  case Nil
  then show ?case by simp
next
  case (Cons e evs)
  obtain api ev where e: "e = (api, ev)" by (cases e)
  from Cons.prems have "loading_has_task (detail_async_step api ev c)"
    by (rule detail_async_step_has_task)
  then show ?case
    unfolding e detail_async_run.simps by (rule Cons.IH)
qed

lemma mount_detail_start_has_task: "loading_has_task (mount_detail_start api ident sent)"
  by (simp add: loading_has_task_def mount_detail_start_def loadProduct_start_view)

lemma mount_detail_start_shop:
  "mount_detail_start shop ''1'' [] =
     \<lparr>dview = \<lparr>product = None, detail.loading = True, detail.error = None, selectedImage = 0\<rparr>,
      dident = ''1'', dtasks = [Inr pen_product], dsent = [ProductReq ''1'']\<rparr>"
  by (simp add: mount_detail_start_def loadProduct_start_def loadProduct_pending_def
      detail_init_def fetchProductById_shop)

lemma mount_start_shop:
  "mount_start shop [] =
     \<lparr>lview = \<lparr>products = [], listing.loading = True, listing.error = None, inputValue = [],
        searchQuery = [], isSearching = False\<rparr>,
      ltasks = [LoadTask (Inr \<lparr>page_products = [pen_product, phone_product],
        page_total = JNum 2, page_skip = JNum 0, page_limit = JNum 30\<rparr>)],
      lsent = [ProductsReq 30]\<rparr>"
  by (simp add: mount_start_def fetchProducts_shop mount_pending_def loadProducts_pending_def
      listing_init_def)

lemma search_pending_shop:
  "listing_async_run
     [(shop, RequestSettles 0), (shop, Page (Change ''phone'')), (shop, Page ClickSearch)]
     (mount_start shop []) =
     \<lparr>lview = \<lparr>products = [pen_product, phone_product], listing.loading = True,
        listing.error = None, inputValue = ''phone'', searchQuery = ''phone'',
        isSearching = False\<rparr>,
      ltasks = [SearchTask (Inr \<lparr>page_products = [phone_product],
        page_total = JNum 1, page_skip = JNum 0, page_limit = JNum 30\<rparr>)],
      lsent = [ProductsReq 30, SearchReq ''phone'']\<rparr>"
  by (simp add: mount_start_shop listing_async_step_def settle_task_def loadProducts_settle_def
      offered_def page_event_def handleSearch_start_def searchQuery_effect_start_def
      performSearch_start_def performSearch_pending_def trim_phone searchProducts_shop_phone)

text \<open>
  Claim C7 says that for every action that sends a request, \<^verbatim>\<open>loading\<close> is true
  exactly from the call of the action until its request settles. The detail page is
  mounted with the identifier 1 and, while that load is in flight, the identifier changes
  to 2: two loads are in flight. When the first settles, \<^verbatim>\<open>loading\<close> becomes false and
  the first product is shown, while the load for the identifier 2 is still in flight.
\<close>

theorem overlapping_loads_clear_loading:
  "detail_async_run [(shop, RouteTo ''2'')] (mount_detail_start shop ''1'' []) =
     \<lparr>dview = \<lparr>product = None, detail.loading = True, detail.error = None, selectedImage = 0\<rparr>,
      dident = ''2'', dtasks = [Inr pen_product, Inr phone_product],
      dsent = [ProductReq ''1'', ProductReq ''2'']\<rparr>
   \<and> detail_async_run [(shop, RouteTo ''2''), (shop, LoadSettles 0)]
       (mount_detail_start shop ''1'' []) =
     \<lparr>dview = \<lparr>product = Some pen_product, detail.loading = False, detail.error = None,
        selectedImage = 0\<rparr>,
      dident = ''2'', dtasks = [Inr phone_product],
      dsent = [ProductReq ''1'', ProductReq ''2'']\<rparr>"
  by (simp add: mount_detail_start_shop detail_async_step_def loadProduct_start_def
      loadProduct_pending_def loadProduct_settle_def fetchProductById_shop)

text \<open>
  Claim C7, as the code has it. In the listing page (load on mounting, committed search,
  clear), after every run of events and settlings, \<^verbatim>\<open>loading\<close> is true exactly when a
  request is in flight, and at most one is; mounting, a clear and a search with a
  non-empty query start with \<^verbatim>\<open>loading\<close> true, and every continuation, with a result
  as with an error, ends with \<^verbatim>\<open>loading\<close> false. In the detail page, a load started
  by a new identifier sets \<^verbatim>\<open>loading\<close> to true, the settling of any load in flight,
  with a result as with an error, sets it to false, and after every run \<^verbatim>\<open>loading\<close>
  is true only if a load is in flight; it can be false while one is.
\<close>

theorem loading_while_request_in_flight:
  "(listing.loading (lview (listing_async_run evs (mount_start api sent))) \<longleftrightarrow>
      ltasks (listing_async_run evs (mount_start api sent)) \<noteq> [])
   \<and> length (ltasks (listing_async_run evs (mount_start api sent))) \<le> 1
   \<and> listing.loading (lview (mount_start api sent))
   \<and> listing.loading (lview (handleClear_start api lc))
   \<and> (searchQuery (lview lc) \<noteq> [] \<longrightarrow> listing.loading (lview (performSearch_start api lc)))
   \<and> \<not> listing.loading (settle_task t s)
   \<and> (detail.loading (dview (detail_async_run devs (mount_detail_start api ident sent))) \<longrightarrow>
        dtasks (detail_async_run devs (mount_detail_start api ident sent)) \<noteq> [])
   \<and> (ident' \<noteq> dident dc \<longrightarrow>
        detail.loading (dview (detail_async_step api (RouteTo ident') dc)))
   \<and> (i < length (dtasks dc) \<longrightarrow>
        \<not> detail.loading (dview (detail_async_step api (LoadSettles i) dc)))"
proof -
  have l: "one_request (listing_async_run evs (mount_start api sent))"
    by (rule listing_async_run_one) (rule mount_start_one)
  have d: "loading_has_task (detail_async_run devs (mount_detail_start api ident sent))"
    by (rule detail_async_run_has_task) (rule mount_detail_start_has_task)
  have m: "listing.loading (lview (mount_start api sent))"
    by (simp add: mount_start_def mount_pending_def loadProducts_pending_def split_def Let_def)
  have p: "searchQuery (lview lc) \<noteq> [] \<longrightarrow> listing.loading (lview (performSearch_start api lc))"
    by (simp add: performSearch_start_def performSearch_pending_def split_def Let_def)
  have r: "ident' \<noteq> dident dc \<longrightarrow>
      detail.loading (dview (detail_async_step api (RouteTo ident') dc))"
    by (simp add: detail_async_step_def loadProduct_start_view)
  have e: "i < length (dtasks dc) \<longrightarrow>
      \<not> detail.loading (dview (detail_async_step api (LoadSettles i) dc))"
    by (simp add: detail_async_step_def loadProduct_settle_not_loading)
  from l d m p r e show ?thesis
    by (simp add: one_request_def loading_has_task_def handleClear_start_view
        settle_task_not_loading)
qed

theorem loading_while_request_in_flight_witness:
  "listing.loading (lview (listing_async_run
      [(shop, RequestSettles 0), (shop, Page (Change ''phone'')), (shop, Page ClickSearch)]
      (mount_start shop [])))
   \<and> length (ltasks (listing_async_run
      [(shop, RequestSettles 0), (shop, Page (Change ''phone'')), (shop, Page ClickSearch)]
      (mount_start shop []))) = 1
   \<and> searchQuery (lview (listing_async_run
      [(shop, RequestSettles 0), (shop, Page (Change ''phone'')), (shop, Page ClickSearch)]
      (mount_start shop []))) \<noteq> []
   \<and> listing.loading (lview (performSearch_start shop (listing_async_run
      [(shop, RequestSettles 0), (shop, Page (Change ''phone'')), (shop, Page ClickSearch)]
      (mount_start shop []))))
   \<and> detail.loading (dview (detail_async_run [] (mount_detail_start shop ''1'' [])))
   \<and> dtasks (detail_async_run [] (mount_detail_start shop ''1'' [])) \<noteq> []
   \<and> ''2'' \<noteq> dident (mount_detail_start shop ''1'' [])
   \<and> detail.loading
       (dview (detail_async_step shop (RouteTo ''2'') (mount_detail_start shop ''1'' [])))
   \<and> 0 < length (dtasks (mount_detail_start shop ''1'' []))
   \<and> \<not> detail.loading
       (dview (detail_async_step shop (LoadSettles 0) (mount_detail_start shop ''1'' [])))"
  using loading_while_request_in_flight
    [where evs = "[(shop, RequestSettles 0), (shop, Page (Change ''phone'')),
        (shop, Page ClickSearch)]"
      and api = shop and sent = "[]"
      and lc = "listing_async_run
        [(shop, RequestSettles 0), (shop, Page (Change ''phone'')), (shop, Page ClickSearch)]
        (mount_start shop [])"
      and devs = "[]" and ident = "''1''" and ident' = "''2''"
      and dc = "mount_detail_start shop ''1'' []" and i = 0]
  unfolding search_pending_shop
  by (simp add: mount_detail_start_shop)

section \<open>Detail controller\<close>

subsection \<open>An identifier that the service does not know\<close>

lemma loadProduct_has_content: "has_content (fst (loadProduct api ident s sent))"
  by (simp add: has_content_def loadProduct_def loadProduct_settle_def split_def Let_def
      split: sum.splits)

lemma detail_step_has_content:
  "has_content (fst c) \<Longrightarrow> has_content (fst (detail_step api ev c))"
  by (cases ev) (simp_all add: detail_step_def loadProduct_has_content,
      simp add: has_content_def setSelectedImage_def)

lemma detail_run_has_content:
  "has_content (fst c) \<Longrightarrow> has_content (fst (detail_run evs c))"
proof (induction evs arbitrary: c)
  case Nil
  then show ?case by simp
next
  case (Cons e evs)
  obtain api ev where e: "e = (api, ev)" by (cases e)
  from Cons.prems have "has_content (fst (detail_step api ev c))"
    by (rule detail_step_has_content)
  then show ?case
    unfolding e detail_run.simps by (rule Cons.IH)
qed

lemma gallery_not_NotFound: "gallery p k \<noteq> Inr NotFoundView"
  by (simp add: gallery_def split: sum.splits)

text \<open>
  The branch of the component that shows \<^verbatim>\<open>Product not found\<close> is never taken: once the
  first load has settled there is a product or an error message.
\<close>

lemma not_found_view_unreachable:
  "render_details (fst (detail_run evs (mount_detail api ident sent))) \<noteq> Inr NotFoundView"
proof -
  have "has_content (fst (detail_run evs (mount_detail api ident sent)))"
    unfolding mount_detail_def by (rule detail_run_has_content) (rule loadProduct_has_content)
  then show ?thesis
    by (auto simp: render_details_def has_content_def gallery_not_NotFound
        split: option.splits list.splits)
qed

text \<open>
  Claim C3 says that for an identifier that the service reports as nonexistent
  \<^verbatim>\<open>fetchProductById\<close> fails and the load ends with no product and the error or
  not-found view. The service \<open>shop\<close> answers the identifier \<^verbatim>\<open>9999\<close> with status 404 and
  a message. The load then ends with a product whose eleven fields are all
  \<^verbatim>\<open>undefined\<close> and with no error, and rendering that state throws a TypeError (the
  read of an element of \<^verbatim>\<open>product.images\<close>).
\<close>

theorem nonexistent_product_is_stored:
  "shop (ProductReq ''9999'') =
     Resolved \<lparr>status = 404, body = Some (JObj [(''message'', JStr ''Product not found'')])\<rparr>
   \<and> mount_detail shop ''9999'' [] =
     (\<lparr>product = Some
        [(''id'', JUndefined), (''title'', JUndefined), (''description'', JUndefined),
         (''price'', JUndefined), (''discountPercentage'', JUndefined),
         (''rating'', JUndefined), (''stock'', JUndefined), (''brand'', JUndefined),
         (''category'', JUndefined), (''thumbnail'', JUndefined), (''images'', JUndefined)],
       detail.loading = False, detail.error = None, selectedImage = 0\<rparr>,
      [ProductReq ''9999''])
   \<and> render_details (fst (mount_detail shop ''9999'' [])) = Inl TypeError"
  by (simp add: mount_detail_def loadProduct_def loadProduct_pending_def
      loadProduct_settle_def detail_init_def fetchProductById_shop_missing
      render_details_def gallery_def get_def shop_def not_found_def)

subsection \<open>Loading another product\<close>



subsection \<open>Selecting an image\<close>

text \<open>
  Claim C5 says that selecting an index outside the images never gives a state whose
  index is out of bounds. With the product of one image loaded, selecting the index 5
  stores 5; the index is out of bounds and the main image rendered is \<^verbatim>\<open>undefined\<close>.
\<close>

theorem select_image_out_of_bounds:
  "setSelectedImage 5 (fst (mount_detail shop ''2'' [])) =
     \<lparr>product = Some phone_product, detail.loading = False, detail.error = None,
      selectedImage = 5\<rparr>
   \<and> get phone_product ''images'' = JArr [JStr ''phone1.png'']
   \<and> \<not> image_in_bounds (setSelectedImage 5 (fst (mount_detail shop ''2'' [])))
   \<and> render_details (setSelectedImage 5 (fst (mount_detail shop ''2'' []))) =
       Inr (ProductView JUndefined [(0, JStr ''phone1.png'')])"
  by (simp add: mount_detail_shop setSelectedImage_def image_in_bounds_def images_phone
      render_details_def gallery_def thumbnails_def)

lemma thumbnails_indices:
  "thumbnails (JArr xs) = Inr ts \<Longrightarrow> t \<in> set ts \<Longrightarrow> 0 \<le> fst t \<and> fst t < int (length xs)"
  by (auto simp: thumbnails_def set_zip)

text \<open>
  Claim C5, as the code has it. With a product loaded whose images are an array,
  selecting the index \<open>k\<close> stores \<open>k\<close> as it is: the stored index is within the bounds of
  the images exactly when \<open>k\<close> is. The component itself offers one thumbnail for each
  image, and the index that a click on any of them selects is within bounds.
\<close>

theorem select_image_stores_index:
  assumes "product s = Some p" and "get p ''images'' = JArr xs"
  shows "selectedImage (setSelectedImage k s) = k
    \<and> (image_in_bounds (setSelectedImage k s) \<longleftrightarrow> 0 \<le> k \<and> k < int (length xs))
    \<and> (\<exists>ts. thumbnails (get p ''images'') = Inr ts
          \<and> length ts = length xs
          \<and> (\<forall>t \<in> set ts. image_in_bounds (setSelectedImage (fst t) s)))"
proof -
  have bounds: "image_in_bounds (setSelectedImage j s) \<longleftrightarrow> 0 \<le> j \<and> j < int (length xs)" for j
    using assms by (simp add: image_in_bounds_def setSelectedImage_def)
  have ts: "thumbnails (get p ''images'') = Inr (zip (map int [0..<length xs]) xs)"
    using assms(2) by (simp add: thumbnails_def)
  have "\<forall>t \<in> set (zip (map int [0..<length xs]) xs). image_in_bounds (setSelectedImage (fst t) s)"
    using thumbnails_indices [of xs "zip (map int [0..<length xs]) xs"] bounds
    by (simp add: thumbnails_def)
  with ts bounds show ?thesis
    by (simp add: setSelectedImage_def)
qed

theorem select_image_stores_index_witness:
  "product (fst (mount_detail shop ''1'' [])) = Some pen_product
   \<and> get pen_product ''images'' = JArr [JStr ''pen1.png'', JStr ''pen2.png'', JStr ''pen3.png'']
   \<and> image_in_bounds (setSelectedImage 2 (fst (mount_detail shop ''1'' [])))
   \<and> \<not> image_in_bounds (setSelectedImage 3 (fst (mount_detail shop ''1'' [])))"
  using select_image_stores_index [of "fst (mount_detail shop ''1'' [])" pen_product
      "[JStr ''pen1.png'', JStr ''pen2.png'', JStr ''pen3.png'']" 2]
    select_image_stores_index [of "fst (mount_detail shop ''1'' [])" pen_product
      "[JStr ''pen1.png'', JStr ''pen2.png'', JStr ''pen3.png'']" 3]
  by (simp add: mount_detail_shop images_pen)

section \<open>Stored errors\<close>

text \<open>
  Claim C6 says that a stored error is cleared by the next action that succeeds. The
  first load of the detail page fails (the service is unreachable); the identifier
  changes and the second load succeeds. The state then has the product of the second
  load and still the error of the first, and the component renders the error.
\<close>

theorem error_survives_success:
  "detail_run [(shop, IdChanged ''2'')] (mount_detail offline ''1'' []) =
     (\<lparr>product = Some phone_product, detail.loading = False,
       detail.error = Some ''Failed to load product'', selectedImage = 0\<rparr>,
      [ProductReq ''1'', ProductReq ''2''])
   \<and> render_details (fst (detail_run [(shop, IdChanged ''2'')] (mount_detail offline ''1'' []))) =
       Inr (ErrorView ''Failed to load product'')"
  by (simp add: mount_detail_def loadProduct_def loadProduct_pending_def detail_step_def
      loadProduct_settle_def detail_init_def fetchProductById_offline fetchProductById_shop
      render_details_def)

lemma detail_step_error:
  "detail.error (fst c) \<noteq> None \<Longrightarrow> detail.error (fst (detail_step api ev c)) \<noteq> None"
  by (cases ev)
    (simp_all add: detail_step_def loadProduct_def loadProduct_pending_def
      loadProduct_settle_def setSelectedImage_def split_def Let_def split: sum.splits)

lemma detail_run_error:
  "detail.error (fst c) \<noteq> None \<Longrightarrow> detail.error (fst (detail_run evs c)) \<noteq> None"
proof (induction evs arbitrary: c)
  case Nil
  then show ?case by simp
next
  case (Cons e evs)
  obtain api ev where e: "e = (api, ev)" by (cases e)
  from Cons.prems have "detail.error (fst (detail_step api ev c)) \<noteq> None"
    by (rule detail_step_error)
  then show ?case
    unfolding e detail_run.simps by (rule Cons.IH)
qed

lemma performSearch_error:
  "listing.error s \<noteq> None \<Longrightarrow> listing.error (fst (performSearch api s sent)) \<noteq> None"
  by (simp add: performSearch_def performSearch_pending_def performSearch_settle_def
      split_def Let_def split: sum.splits)

lemma searchQuery_effect_error:
  "listing.error s \<noteq> None \<Longrightarrow>
   listing.error (fst (searchQuery_effect api previous s sent)) \<noteq> None"
  by (simp add: searchQuery_effect_def performSearch_error del: not_None_eq)

lemma handleSearch_error:
  "listing.error s \<noteq> None \<Longrightarrow> listing.error (fst (handleSearch api s sent)) \<noteq> None"
  by (simp add: handleSearch_def searchQuery_effect_error del: not_None_eq)

lemma handleClear_error:
  "listing.error s \<noteq> None \<Longrightarrow> listing.error (fst (handleClear api s sent)) \<noteq> None"
  by (simp add: handleClear_def handleClear_pending_def handleClear_settle_def
      searchQuery_effect_error split_def Let_def del: not_None_eq split: sum.splits)

lemma listing_step_error:
  "listing.error (fst c) \<noteq> None \<Longrightarrow> listing.error (fst (listing_step api ev c)) \<noteq> None"
  by (cases ev)
    (simp_all add: listing_step_def handleKeyDown_def handleSearch_error handleClear_error
      del: not_None_eq)

lemma listing_run_error:
  "listing.error (fst c) \<noteq> None \<Longrightarrow> listing.error (fst (listing_run evs c)) \<noteq> None"
proof (induction evs arbitrary: c)
  case Nil
  then show ?case by simp
next
  case (Cons e evs)
  obtain api ev where e: "e = (api, ev)" by (cases e)
  from Cons.prems have "listing.error (fst (listing_step api ev c)) \<noteq> None"
    by (rule listing_step_error)
  then show ?case
    unfolding e listing_run.simps by (rule Cons.IH)
qed

text \<open>
  Claim C6, as the code has it. No action of either controller clears a stored error:
  once \<^verbatim>\<open>error\<close> is set it is set after every later run of events, whether their
  requests succeed or fail.
\<close>

theorem errors_are_never_cleared:
  "(detail.error (fst c) \<noteq> None \<longrightarrow> detail.error (fst (detail_run evs c)) \<noteq> None)
   \<and> (listing.error (fst c') \<noteq> None \<longrightarrow> listing.error (fst (listing_run evs' c')) \<noteq> None)"
  using detail_run_error [of c evs] listing_run_error [of c' evs'] by blast

theorem errors_are_never_cleared_witness:
  "detail.error (fst (mount_detail offline ''1'' [])) \<noteq> None
   \<and> detail.error (fst (detail_run [(shop, IdChanged ''2'')] (mount_detail offline ''1'' []))) \<noteq> None
   \<and> listing.error (fst (mount offline [])) \<noteq> None
   \<and> listing.error (fst (listing_run [(shop, ClickClear)] (mount offline []))) \<noteq> None"
proof -
  have d: "detail.error (fst (mount_detail offline ''1'' [])) \<noteq> None"
    by (simp add: mount_detail_def loadProduct_def loadProduct_pending_def
        loadProduct_settle_def fetchProductById_offline)
  have l: "listing.error (fst (mount offline [])) \<noteq> None"
    by (simp add: mount_offline)
  from d l errors_are_never_cleared [of "mount_detail offline ''1'' []"
      "[(shop, IdChanged ''2'')]" "mount offline []" "[(shop, ClickClear)]"]
  show ?thesis by blast
qed

end
